theory Spec2Isabelle
  imports Main "HOL-Library.Mapping" "HOL-Library.AList_Mapping"
begin

section \<open>The event system of EventSystem.h\<close>

text \<open>
  \<^verbatim>\<open>EventSystem::Subject\<close> keeps one private static pointer,
  \<^verbatim>\<open>myObservers\<close>, to an
  \<^verbatim>\<open>unordered_map<type_index, vector<Observer*>>\<close>, and offers three static
  member templates: \<^verbatim>\<open>Attach\<close>, \<^verbatim>\<open>Detach\<close> and \<^verbatim>\<open>Notify\<close>.

  \<^item> A \<^verbatim>\<open>type_index\<close> (an event category) is a value of the type variable \<open>'c\<close>.
  \<^item> An \<^verbatim>\<open>Observer*\<close> is a value of the type variable \<open>'o\<close>: a valid, non-null
    pointer, compared by address.
  \<^item> An event carries its dynamic type, which \<^verbatim>\<open>typeid(anEvent)\<close> reads, and a payload.
  \<^item> The \<^verbatim>\<open>unordered_map\<close> is a \<open>mapping\<close>: unique keys, no order.
  \<^item> The pointer \<^verbatim>\<open>myObservers\<close> is an \<open>option\<close>: \<open>None\<close> is \<^verbatim>\<open>nullptr\<close>.
\<close>

subsection \<open>Data\<close>

datatype ('c, 'p) event = Event (typeid: 'c) (payload: 'p)

text \<open>The four messages the code prints when \<^verbatim>\<open>_DEBUG\<close> is defined.\<close>

datatype diagnostic =
    AlreadyAttached
  | NullptrInDetach
  | CouldNotDetach
  | NullptrInNotify

text \<open>
  The world the three operations act on: the static member, the calls made to
  \<^verbatim>\<open>Observer::OnNotify\<close> so far (oldest first), and what \<^verbatim>\<open>printf\<close> has written
  so far (oldest first).
\<close>

record ('c, 'o, 'p) world =
  myObservers :: "('c, 'o list) mapping option"
  calls :: "('o \<times> ('c, 'p) event) list"
  printed :: "diagnostic list"

definition init :: "('c, 'o, 'p) world" where
  "init = \<lparr>myObservers = None, calls = [], printed = []\<rparr>"

subsection \<open>The library operations the code calls\<close>

text \<open>
  \<^verbatim>\<open>unordered_map::operator[]\<close>: a missing key is inserted with a value-initialised
  (empty) vector. The reference it returns is read back with \<open>Mapping.lookup_default\<close>.
\<close>

definition subscript :: "('c, 'o list) mapping \<Rightarrow> 'c \<Rightarrow> ('c, 'o list) mapping" where
  "subscript m k = (case Mapping.lookup m k of None \<Rightarrow> Mapping.update k [] m | Some v \<Rightarrow> m)"

text \<open>
  \<^verbatim>\<open>std::remove(first, last, value)\<close> shifts the elements that differ from
  \<^verbatim>\<open>value\<close> to the front, in order, and returns the end of that range, here as an
  index. The vector keeps its length; for pointers a moved-from slot keeps its value, so
  the slots from the returned position on hold what they held before.
\<close>

definition std_remove :: "'o list \<Rightarrow> 'o \<Rightarrow> 'o list \<times> nat" where
  "std_remove xs v =
     (let kept = filter (\<lambda>x. x \<noteq> v) xs
      in (kept @ drop (length kept) xs, length kept))"

text \<open>\<^verbatim>\<open>vector::erase(it)\<close> with one iterator removes the single element there.\<close>

definition erase :: "'o list \<Rightarrow> nat \<Rightarrow> 'o list" where
  "erase xs i = take i xs @ drop (Suc i) xs"

text \<open>A \<^verbatim>\<open>printf\<close> block inside \<^verbatim>\<open>#ifdef _DEBUG\<close>; the flag is the build mode.\<close>

definition debug_printf ::
  "bool \<Rightarrow> diagnostic \<Rightarrow> ('c, 'o, 'p) world \<Rightarrow> ('c, 'o, 'p) world" where
  "debug_printf DEBUG d w = (if DEBUG then w\<lparr>printed := printed w @ [d]\<rparr> else w)"

text \<open>
  \<^verbatim>\<open>observer->OnNotify(anEvent)\<close> is pure virtual: its body belongs to the embedding
  program. The call is recorded; the body is taken not to call back into
  \<^verbatim>\<open>Subject\<close>.
\<close>

definition OnNotify ::
  "'o \<Rightarrow> ('c, 'p) event \<Rightarrow> ('c, 'o, 'p) world \<Rightarrow> ('c, 'o, 'p) world" where
  "OnNotify observer anEvent w = w\<lparr>calls := calls w @ [(observer, anEvent)]\<rparr>"

subsection \<open>Subject\<close>

definition Attach ::
  "bool \<Rightarrow> 'c \<Rightarrow> 'o \<Rightarrow> ('c, 'o, 'p) world \<Rightarrow> ('c, 'o, 'p) world" where
  "Attach DEBUG EventClass anObserver w =
     (let m0 = (case myObservers w of None \<Rightarrow> Mapping.empty | Some m \<Rightarrow> m);
          m1 = subscript m0 EventClass;
          observers = Mapping.lookup_default [] m1 EventClass
      in if anObserver \<in> set observers
         then debug_printf DEBUG AlreadyAttached (w\<lparr>myObservers := Some m1\<rparr>)
         else w\<lparr>myObservers :=
                  Some (Mapping.update EventClass (observers @ [anObserver]) m1)\<rparr>)"

definition Detach ::
  "bool \<Rightarrow> 'c \<Rightarrow> 'o \<Rightarrow> ('c, 'o, 'p) world \<Rightarrow> ('c, 'o, 'p) world" where
  "Detach DEBUG EventClass anObserver w =
     (case myObservers w of
        None \<Rightarrow> debug_printf DEBUG NullptrInDetach w
      | Some m \<Rightarrow>
          (let m1 = subscript m EventClass;
               observers = Mapping.lookup_default [] m1 EventClass;
               (shifted, it) = std_remove observers anObserver;
               observers' = (if it \<noteq> length shifted then erase shifted it else shifted);
               w1 = (if it \<noteq> length shifted then w else debug_printf DEBUG CouldNotDetach w);
               m2 = Mapping.update EventClass observers' m1;
               m3 = (if observers' = [] then Mapping.delete EventClass m2 else m2)
           in if Mapping.is_empty m3
              then w1\<lparr>myObservers := None\<rparr>
              else w1\<lparr>myObservers := Some m3\<rparr>))"

definition Notify ::
  "bool \<Rightarrow> ('c, 'p) event \<Rightarrow> ('c, 'o, 'p) world \<Rightarrow> ('c, 'o, 'p) world" where
  "Notify DEBUG anEvent w =
     (case myObservers w of
        None \<Rightarrow> debug_printf DEBUG NullptrInNotify w
      | Some m \<Rightarrow>
          (case Mapping.lookup m (typeid anEvent) of
             Some observers \<Rightarrow> fold (\<lambda>observer. OnNotify observer anEvent) observers w
           | None \<Rightarrow> w))"

subsection \<open>Reading the registry\<close>

text \<open>The vector stored under a category, if the registry exists and has the key.\<close>

definition entry :: "('c, 'o, 'p) world \<Rightarrow> 'c \<Rightarrow> 'o list option" where
  "entry w c = (case myObservers w of None \<Rightarrow> None | Some m \<Rightarrow> Mapping.lookup m c)"

text \<open>The subscriber list of a category: empty when there is no vector for it.\<close>

definition subscribers :: "('c, 'o, 'p) world \<Rightarrow> 'c \<Rightarrow> 'o list" where
  "subscribers w c = (case entry w c of None \<Rightarrow> [] | Some xs \<Rightarrow> xs)"

text \<open>
  What \<^verbatim>\<open>Detach\<close> leaves of a vector: \<^verbatim>\<open>std::remove\<close>, then
  \<^verbatim>\<open>erase(it)\<close> unless \<^verbatim>\<open>it\<close> is the end.
\<close>

definition detached :: "'o list \<Rightarrow> 'o \<Rightarrow> 'o list" where
  "detached xs v =
     (let (shifted, it) = std_remove xs v
      in if it \<noteq> length shifted then erase shifted it else shifted)"

text \<open>The calls to \<^verbatim>\<open>OnNotify\<close> that lead from world \<open>w\<close> to world \<open>w'\<close>.\<close>

definition delivered ::
  "('c, 'o, 'p) world \<Rightarrow> ('c, 'o, 'p) world \<Rightarrow> ('o \<times> ('c, 'p) event) list" where
  "delivered w w' = drop (length (calls w)) (calls w')"

text \<open>
  The structural invariant of the registry: a registry that exists has a category, and
  every vector in it is non-empty and repeats no handle.
\<close>

definition registry_ok :: "('c, 'o, 'p) world \<Rightarrow> bool" where
  "registry_ok w =
     (case myObservers w of
        None \<Rightarrow> True
      | Some m \<Rightarrow>
          \<not> Mapping.is_empty m \<and>
          (\<forall>c \<in> Mapping.keys m.
             Mapping.lookup_default [] m c \<noteq> [] \<and> distinct (Mapping.lookup_default [] m c)))"

subsection \<open>Sequences of calls\<close>

datatype ('c, 'o, 'p) call =
    Subscribe 'c 'o
  | Unsubscribe 'c 'o
  | Publish "('c, 'p) event"

fun step ::
  "bool \<Rightarrow> ('c, 'o, 'p) call \<Rightarrow> ('c, 'o, 'p) world \<Rightarrow> ('c, 'o, 'p) world" where
  "step DEBUG (Subscribe c h) w = Attach DEBUG c h w"
| "step DEBUG (Unsubscribe c h) w = Detach DEBUG c h w"
| "step DEBUG (Publish e) w = Notify DEBUG e w"

definition run ::
  "bool \<Rightarrow> ('c, 'o, 'p) call list \<Rightarrow> ('c, 'o, 'p) world \<Rightarrow> ('c, 'o, 'p) world" where
  "run DEBUG cs w = fold (step DEBUG) cs w"

section \<open>Properties of the operations\<close>

subsection \<open>The map and the vector\<close>

lemma is_empty_lookup: "Mapping.is_empty m \<longleftrightarrow> (\<forall>k. Mapping.lookup m k = None)"
  by (auto simp: Mapping.is_empty_def keys_dom_lookup)

lemma lookup_subscript:
  "Mapping.lookup (subscript m k) d =
     (if d = k then Some (Mapping.lookup_default [] m k) else Mapping.lookup m d)"
  by (simp add: subscript_def Mapping.lookup_default_def Mapping.lookup_update' split: option.splits)

lemma lookup_default_subscript:
  "Mapping.lookup_default [] (subscript m k) k = Mapping.lookup_default [] m k"
  by (simp add: Mapping.lookup_default_def lookup_subscript)

lemma subscribers_Some:
  "myObservers w = Some m \<Longrightarrow> subscribers w c = Mapping.lookup_default [] m c"
  by (simp add: subscribers_def entry_def Mapping.lookup_default_def)

lemma subscribers_None: "myObservers w = None \<Longrightarrow> subscribers w c = []"
  by (simp add: subscribers_def entry_def)

lemma filter_absent: "v \<notin> set xs \<Longrightarrow> filter (\<lambda>x. x \<noteq> v) xs = xs"
  by (induction xs) auto

lemma length_filter_present:
  "v \<in> set xs \<Longrightarrow> length (filter (\<lambda>x. x \<noteq> v) xs) < length xs"
  by (induction xs) (auto simp: less_Suc_eq_le)

lemma length_filter_distinct:
  "distinct xs \<Longrightarrow> v \<in> set xs \<Longrightarrow> Suc (length (filter (\<lambda>x. x \<noteq> v) xs)) = length xs"
  by (induction xs) (auto simp: filter_absent)

lemma detached_absent: "v \<notin> set xs \<Longrightarrow> detached xs v = xs"
  by (simp add: detached_def std_remove_def filter_absent)

lemma detached_distinct:
  assumes "distinct xs" "v \<in> set xs"
  shows "detached xs v = filter (\<lambda>x. x \<noteq> v) xs"
proof -
  let ?k = "filter (\<lambda>x. x \<noteq> v) xs"
  have len: "Suc (length ?k) = length xs"
    using assms by (rule length_filter_distinct)
  then have "length (drop (length ?k) xs) = 1" by simp
  then have "drop (Suc 0) (drop (length ?k) xs) = []" by simp
  with len show ?thesis
    by (simp add: detached_def std_remove_def erase_def Let_def)
qed

subsection \<open>What each operation does to the world\<close>

lemma calls_debug_printf [simp]: "calls (debug_printf D d w) = calls w"
  and myObservers_debug_printf [simp]: "myObservers (debug_printf D d w) = myObservers w"
  and printed_debug_printf: "printed (debug_printf D d w) = printed w @ (if D then [d] else [])"
  by (simp_all add: debug_printf_def)

lemma entry_debug_printf [simp]: "entry (debug_printf D d w) c = entry w c"
  by (simp add: entry_def)

lemma Attach_Some: "myObservers (Attach D c h w) \<noteq> None"
  by (simp add: Attach_def Let_def)

lemma calls_Attach: "calls (Attach D c h w) = calls w"
  by (simp add: Attach_def Let_def)

lemma entry_Attach:
  "entry (Attach D c h w) d =
     (if d = c
      then Some (if h \<in> set (subscribers w c) then subscribers w c else subscribers w c @ [h])
      else entry w d)"
proof (cases "myObservers w")
  case None
  then show ?thesis
    by (simp add: Attach_def Let_def entry_def subscribers_def lookup_subscript
          lookup_default_subscript Mapping.lookup_update' Mapping.lookup_default_def)
next
  case (Some m)
  then show ?thesis
    by (cases "Mapping.lookup m c")
       (simp_all add: Attach_def Let_def entry_def subscribers_def lookup_subscript
          lookup_default_subscript Mapping.lookup_update' Mapping.lookup_default_def)
qed

lemma printed_Attach:
  "printed (Attach D c h w) =
     printed w @ (if D \<and> h \<in> set (subscribers w c) then [AlreadyAttached] else [])"
  by (cases "myObservers w")
     (simp_all add: Attach_def Let_def entry_def subscribers_def lookup_subscript
        lookup_default_subscript Mapping.lookup_default_def printed_debug_printf split: option.splits)

lemma calls_Detach: "calls (Detach D c h w) = calls w"
  by (simp add: Detach_def Let_def split: option.splits prod.splits)

lemma Detach_None: "myObservers w = None \<Longrightarrow> myObservers (Detach D c h w) = None"
  by (simp add: Detach_def)

lemma lookup_delete_if:
  "Mapping.lookup (Mapping.delete k m) d = (if d = k then None else Mapping.lookup m d)"
  by simp

lemma Detach_unfold:
  "myObservers w = Some m \<Longrightarrow>
   myObservers (Detach D c h w) =
     (let xs' = detached (subscribers w c) h;
          m2 = Mapping.update c xs' (subscript m c);
          m3 = (if xs' = [] then Mapping.delete c m2 else m2)
      in if Mapping.is_empty m3 then None else Some m3)"
  by (simp add: Detach_def Let_def detached_def subscribers_Some lookup_default_subscript
        split: prod.splits)

lemma entry_Detach:
  "entry (Detach D c h w) d =
     (if d = c
      then (if myObservers w = None \<or> detached (subscribers w c) h = [] then None
            else Some (detached (subscribers w c) h))
      else entry w d)"
proof (cases "myObservers w")
  case None
  then show ?thesis by (simp add: Detach_None entry_def)
next
  case (Some m)
  show ?thesis
    unfolding entry_def Detach_unfold [OF Some] Let_def
    by (auto simp: Some is_empty_lookup lookup_subscript Mapping.lookup_update'
          lookup_delete_if split: if_splits)
qed

lemma Detach_no_empty_registry: "myObservers (Detach D c h w) \<noteq> Some Mapping.empty"
proof (cases "myObservers w")
  case None
  then show ?thesis by (simp add: Detach_None)
next
  case (Some m)
  show ?thesis
    unfolding Detach_unfold [OF Some] Let_def
    by (metis Mapping.is_empty_empty option.distinct(1) option.inject)
qed

lemma printed_Detach:
  "printed (Detach D c h w) =
     printed w @
       (if \<not> D then []
        else if myObservers w = None then [NullptrInDetach]
        else if h \<in> set (subscribers w c) then [] else [CouldNotDetach])"
proof (cases "myObservers w")
  case None
  then show ?thesis by (simp add: Detach_def printed_debug_printf)
next
  case (Some m)
  have it: "snd (std_remove xs h) \<noteq> length (fst (std_remove xs h)) \<longleftrightarrow> h \<in> set xs" for xs
    using length_filter_present [of h xs]
    by (cases "h \<in> set xs") (simp_all add: std_remove_def Let_def filter_absent)
  show ?thesis
    using it [of "Mapping.lookup_default [] m c"]
    by (auto simp: Detach_def Let_def Some subscribers_Some lookup_default_subscript
          printed_debug_printf split: prod.splits)
qed

lemma fold_OnNotify:
  "fold (\<lambda>observer. OnNotify observer e) xs w =
     w\<lparr>calls := calls w @ map (\<lambda>observer. (observer, e)) xs\<rparr>"
  by (induction xs arbitrary: w) (simp_all add: OnNotify_def)

lemma myObservers_Notify: "myObservers (Notify D e w) = myObservers w"
  by (simp add: Notify_def fold_OnNotify split: option.splits)

lemma entry_Notify: "entry (Notify D e w) c = entry w c"
  by (simp add: entry_def myObservers_Notify)

lemma calls_Notify:
  "calls (Notify D e w) = calls w @ map (\<lambda>observer. (observer, e)) (subscribers w (typeid e))"
  by (simp add: Notify_def fold_OnNotify subscribers_def entry_def split: option.splits)

lemma printed_Notify:
  "printed (Notify D e w) =
     printed w @ (if D \<and> myObservers w = None then [NullptrInNotify] else [])"
  by (simp add: Notify_def fold_OnNotify printed_debug_printf split: option.splits)

lemma delivered_Notify:
  "delivered w (Notify D e w) = map (\<lambda>observer. (observer, e)) (subscribers w (typeid e))"
  by (simp add: delivered_def calls_Notify)

lemma subscribers_Attach:
  "subscribers (Attach D c h w) d =
     (if d = c
      then (if h \<in> set (subscribers w c) then subscribers w c else subscribers w c @ [h])
      else subscribers w d)"
  by (simp add: subscribers_def [of "Attach D c h w"] entry_Attach) (simp add: subscribers_def)

lemma subscribers_Detach:
  "subscribers (Detach D c h w) d =
     (if d = c then detached (subscribers w c) h else subscribers w d)"
proof (cases "myObservers w")
  case None
  then have "myObservers (Detach D c h w) = None" by (rule Detach_None)
  with None show ?thesis by (simp add: subscribers_None detached_absent)
next
  case (Some m)
  then show ?thesis
    by (simp add: subscribers_def [of "Detach D c h w"] entry_Detach)
       (simp add: subscribers_def)
qed

subsection \<open>The registry invariant\<close>

lemma registry_ok_iff:
  "registry_ok w \<longleftrightarrow>
     (myObservers w = None \<or> (\<exists>c. entry w c \<noteq> None)) \<and>
     (\<forall>c xs. entry w c = Some xs \<longrightarrow> xs \<noteq> [] \<and> distinct xs)"
proof (cases "myObservers w")
  case None
  then show ?thesis by (simp add: registry_ok_def entry_def)
next
  case (Some m)
  have "registry_ok w \<longleftrightarrow>
          (\<exists>c. Mapping.lookup m c \<noteq> None) \<and>
          (\<forall>c xs. Mapping.lookup m c = Some xs \<longrightarrow> xs \<noteq> [] \<and> distinct xs)"
    unfolding registry_ok_def Some is_empty_lookup keys_dom_lookup
      Mapping.lookup_default_def Ball_def dom_def
    by (simp split: option.splits)
  then show ?thesis by (simp add: entry_def Some)
qed

lemma registry_eqI:
  assumes "myObservers w = None \<longleftrightarrow> myObservers w' = None"
    and "\<And>c. entry w c = entry w' c"
  shows "myObservers w = myObservers w'"
proof (cases "myObservers w")
  case None
  with assms(1) show ?thesis by simp
next
  case (Some m)
  with assms(1) obtain m' where m': "myObservers w' = Some m'" by auto
  have "Mapping.lookup m c = Mapping.lookup m' c" for c
    using assms(2) [of c] by (simp add: entry_def Some m')
  then have "m = m'" by (rule mapping_eqI)
  with Some m' show ?thesis by simp
qed

lemma registry_ok_Attach: "registry_ok w \<Longrightarrow> registry_ok (Attach D c h w)"
  unfolding registry_ok_iff entry_Attach
  by (auto simp: Attach_Some subscribers_def split: option.splits if_splits)

lemma distinct_detached: "distinct xs \<Longrightarrow> distinct (detached xs v)"
  by (cases "v \<in> set xs") (simp_all add: detached_absent detached_distinct)

lemma registry_ok_subscribers: "registry_ok w \<Longrightarrow> distinct (subscribers w c)"
  by (auto simp: registry_ok_iff subscribers_def split: option.splits)

lemma Detach_None_iff:
  "myObservers (Detach D c h w) = None \<longleftrightarrow> (\<forall>d. entry (Detach D c h w) d = None)"
proof (cases "myObservers w")
  case None
  then show ?thesis by (simp add: Detach_None entry_def)
next
  case (Some m)
  show ?thesis
    unfolding entry_def Detach_unfold [OF Some] Let_def
    by (simp add: is_empty_lookup)
qed

lemma registry_ok_Detach:
  assumes "registry_ok w"
  shows "registry_ok (Detach D c h w)"
proof -
  have "distinct (detached (subscribers w c) h)"
    using assms by (simp add: registry_ok_subscribers distinct_detached)
  moreover have "entry w d = Some xs \<Longrightarrow> xs \<noteq> [] \<and> distinct xs" for d xs
    using assms by (simp add: registry_ok_iff)
  ultimately
  have "entry (Detach D c h w) d = Some xs \<Longrightarrow> xs \<noteq> [] \<and> distinct xs" for d xs
    by (auto simp: entry_Detach split: if_splits)
  moreover
  have "myObservers (Detach D c h w) = None \<or> (\<exists>d. entry (Detach D c h w) d \<noteq> None)"
    using Detach_None_iff [of D c h w] by blast
  ultimately show ?thesis
    unfolding registry_ok_iff [of "Detach D c h w"] by blast
qed

lemma registry_ok_Notify: "registry_ok w \<Longrightarrow> registry_ok (Notify D e w)"
  by (simp add: registry_ok_iff entry_Notify myObservers_Notify)

lemma registry_ok_init: "registry_ok init"
  by (simp add: registry_ok_def init_def)

lemma registry_ok_step: "registry_ok w \<Longrightarrow> registry_ok (step D x w)"
  by (cases x) (simp_all add: registry_ok_Attach registry_ok_Detach registry_ok_Notify)

lemma registry_ok_run: "registry_ok w \<Longrightarrow> registry_ok (run D cs w)"
  unfolding run_def by (induction cs arbitrary: w) (simp_all add: registry_ok_step)

lemma length_filter_fst:
  "distinct xs \<Longrightarrow> h \<in> set xs \<Longrightarrow>
   length (filter (\<lambda>x. fst x = h) (map (\<lambda>observer. (observer, e)) xs)) = 1"
  by (induction xs) (auto simp: filter_empty_conv)

section \<open>The claims\<close>

text \<open>
  C1. Take any world in which category \<open>c\<close> has no subscriber. After \<^verbatim>\<open>Attach\<close> of
  three distinct handles \<open>A\<close>, \<open>B\<close>, \<open>C\<close> to \<open>c\<close>, in that order, one
  \<^verbatim>\<open>Notify\<close> of an event of type \<open>c\<close> calls \<^verbatim>\<open>OnNotify\<close> on \<open>A\<close>, then \<open>B\<close>,
  then \<open>C\<close>, once each, and on nothing else.
\<close>

theorem publish_in_subscription_order:
  assumes "subscribers w c = []" and "distinct [A, B, C]" and "typeid e = c"
  shows "delivered (Attach D c C (Attach D c B (Attach D c A w)))
           (Notify D e (Attach D c C (Attach D c B (Attach D c A w)))) =
         [(A, e), (B, e), (C, e)]"
  using assms by (auto simp: delivered_Notify subscribers_Attach)

theorem publish_in_subscription_order_witness:
  "subscribers (init :: (nat, nat, unit) world) 0 = [] \<and> distinct [1, 2, 3 :: nat] \<and>
   typeid (Event (0 :: nat) ()) = 0 \<and>
   delivered (Attach True 0 3 (Attach True 0 2 (Attach True 0 1 (init :: (nat, nat, unit) world))))
     (Notify True (Event 0 ()) (Attach True 0 3 (Attach True 0 2 (Attach True 0 1 init)))) =
   [(1, Event 0 ()), (2, Event 0 ()), (3, Event 0 ())]"
  using publish_in_subscription_order [of "init :: (nat, nat, unit) world" 0 1 2 3 "Event 0 ()" True]
  by (simp add: subscribers_def entry_def init_def)

text \<open>
  C2. \<^verbatim>\<open>Attach\<close> of the same handle to the same category twice leaves the registry and
  the calls as one \<^verbatim>\<open>Attach\<close> does; \<^verbatim>\<open>Attach\<close> of a handle already in the
  category's vector changes neither, and prints its message in a debug build. When the
  registry invariant holds before (as it does in every world the three operations produce
  from \<open>init\<close>), a \<^verbatim>\<open>Notify\<close> of that category after the double \<^verbatim>\<open>Attach\<close> calls
  \<^verbatim>\<open>OnNotify\<close> on the handle exactly once.
\<close>

theorem duplicate_Attach_idempotent:
  "myObservers (Attach D c h (Attach D c h w)) = myObservers (Attach D c h w) \<and>
   calls (Attach D c h (Attach D c h w)) = calls (Attach D c h w) \<and>
   (h \<in> set (subscribers w c) \<longrightarrow>
      myObservers (Attach D c h w) = myObservers w \<and>
      calls (Attach D c h w) = calls w \<and>
      printed (Attach D c h w) = printed w @ (if D then [AlreadyAttached] else [])) \<and>
   (registry_ok w \<longrightarrow> typeid e = c \<longrightarrow>
      length (filter (\<lambda>x. fst x = h)
        (delivered (Attach D c h (Attach D c h w))
           (Notify D e (Attach D c h (Attach D c h w))))) = 1)"
proof (intro conjI impI)
  show "myObservers (Attach D c h (Attach D c h w)) = myObservers (Attach D c h w)"
    by (rule registry_eqI) (simp_all add: Attach_Some entry_Attach subscribers_Attach)
  show "calls (Attach D c h (Attach D c h w)) = calls (Attach D c h w)"
    by (simp add: calls_Attach)
next
  assume h: "h \<in> set (subscribers w c)"
  then have "myObservers w \<noteq> None"
    by (cases "myObservers w") (simp_all add: subscribers_None)
  moreover have "entry (Attach D c h w) d = entry w d" for d
    using h by (auto simp: entry_Attach subscribers_def split: option.splits)
  ultimately show "myObservers (Attach D c h w) = myObservers w"
    by (intro registry_eqI) (simp_all add: Attach_Some)
  show "calls (Attach D c h w) = calls w"
    by (simp add: calls_Attach)
  show "printed (Attach D c h w) = printed w @ (if D then [AlreadyAttached] else [])"
    using h by (simp add: printed_Attach)
next
  assume ok: "registry_ok w" and e: "typeid e = c"
  let ?xs = "subscribers (Attach D c h (Attach D c h w)) c"
  have "registry_ok (Attach D c h (Attach D c h w))"
    using ok by (simp add: registry_ok_Attach)
  then have "distinct ?xs" by (rule registry_ok_subscribers)
  moreover have "h \<in> set ?xs" by (simp add: subscribers_Attach)
  ultimately show "length (filter (\<lambda>x. fst x = h)
        (delivered (Attach D c h (Attach D c h w))
           (Notify D e (Attach D c h (Attach D c h w))))) = 1"
    unfolding delivered_Notify e by (rule length_filter_fst)
qed

theorem duplicate_Attach_idempotent_witness:
  "(1 :: nat) \<in> set (subscribers (Attach False (0 :: nat) 1 (init :: (nat, nat, unit) world)) 0) \<and>
   registry_ok (Attach False (0 :: nat) (1 :: nat) (init :: (nat, nat, unit) world)) \<and>
   typeid (Event (0 :: nat) ()) = 0 \<and>
   myObservers (Attach False 0 1 (Attach False 0 1 (init :: (nat, nat, unit) world))) =
     myObservers (Attach False 0 1 (init :: (nat, nat, unit) world)) \<and>
   printed (Attach False 0 1 (Attach False 0 1 (init :: (nat, nat, unit) world))) =
     printed (Attach False 0 1 (init :: (nat, nat, unit) world)) \<and>
   length (filter (\<lambda>x. fst x = 1)
     (delivered (Attach False 0 1 (Attach False 0 1 (Attach False 0 1 (init :: (nat, nat, unit) world))))
        (Notify False (Event 0 ())
           (Attach False 0 1 (Attach False 0 1 (Attach False 0 1 init)))))) = 1"
  using duplicate_Attach_idempotent [of False 0 1 "Attach False 0 1 (init :: (nat, nat, unit) world)" "Event 0 ()"]
  by (simp add: subscribers_Attach registry_ok_Attach registry_ok_init)

text \<open>
  C3. If the registry holds one category, with one subscriber, then \<^verbatim>\<open>Detach\<close> of that
  subscriber leaves \<^verbatim>\<open>myObservers\<close> null. In general \<^verbatim>\<open>Detach\<close> erases the key of
  a vector it empties, resets \<^verbatim>\<open>myObservers\<close> to null when no key is left, and never
  leaves an empty vector under its category or an empty map behind.
\<close>

theorem Detach_last_subscriber_uninitialized:
  "(myObservers w = Some m \<and> Mapping.keys m = {c} \<and> Mapping.lookup m c = Some [h] \<longrightarrow>
      myObservers (Detach D c h w) = None) \<and>
   (detached (subscribers w c) h = [] \<longrightarrow> entry (Detach D c h w) c = None) \<and>
   ((\<forall>d. entry (Detach D c h w) d = None) \<longrightarrow> myObservers (Detach D c h w) = None) \<and>
   entry (Detach D c h w) c \<noteq> Some [] \<and>
   myObservers (Detach D c h w) \<noteq> Some Mapping.empty"
proof (intro conjI impI)
  assume a: "myObservers w = Some m \<and> Mapping.keys m = {c} \<and> Mapping.lookup m c = Some [h]"
  then have "subscribers w c = [h]"
    by (simp add: subscribers_def entry_def)
  then have "detached (subscribers w c) h = []"
    by (simp add: detached_distinct)
  moreover have "entry w d = None" if "d \<noteq> c" for d
    using a that by (auto simp: entry_def keys_dom_lookup)
  ultimately have "entry (Detach D c h w) d = None" for d
    by (simp add: entry_Detach)
  then show "myObservers (Detach D c h w) = None"
    by (simp add: Detach_None_iff)
next
  show "entry (Detach D c h w) c = None" if "detached (subscribers w c) h = []"
    using that by (simp add: entry_Detach)
  show "myObservers (Detach D c h w) = None" if "\<forall>d. entry (Detach D c h w) d = None"
    using that by (simp add: Detach_None_iff)
  show "entry (Detach D c h w) c \<noteq> Some []"
    by (simp add: entry_Detach)
  show "myObservers (Detach D c h w) \<noteq> Some Mapping.empty"
    by (rule Detach_no_empty_registry)
qed

theorem Detach_last_subscriber_uninitialized_witness:
  "myObservers (Attach True (0 :: nat) (1 :: nat) (init :: (nat, nat, unit) world)) =
     Some (Mapping.update 0 [1] Mapping.empty) \<and>
   Mapping.keys (Mapping.update (0 :: nat) [1 :: nat] Mapping.empty) = {0} \<and>
   Mapping.lookup (Mapping.update (0 :: nat) [1 :: nat] Mapping.empty) 0 = Some [1] \<and>
   detached (subscribers (Attach True (0 :: nat) (1 :: nat) (init :: (nat, nat, unit) world)) 0) 1 = [] \<and>
   Detach True 0 1 (Attach True 0 1 (init :: (nat, nat, unit) world)) = init"
  using Detach_last_subscriber_uninitialized [of "Attach True 0 1 (init :: (nat, nat, unit) world)"
      "Mapping.update 0 [1] Mapping.empty" 0 1 True]
  by (simp add: Attach_def Detach_def init_def subscript_def Mapping.lookup_default_def
        detached_def std_remove_def erase_def subscribers_def entry_def debug_printf_def
        Mapping.update_update Mapping.is_empty_delete)

text \<open>
  C4. Let \<open>x\<close> and \<open>y\<close> be distinct categories and \<open>h\<close> a handle that is in the vector
  of \<open>y\<close> and of no other category. A \<^verbatim>\<open>Notify\<close> of an event of type \<open>x\<close> makes no
  call to \<^verbatim>\<open>OnNotify\<close> on \<open>h\<close>.
\<close>

theorem Notify_category_isolation:
  assumes "x \<noteq> y"
    and "h \<in> set (subscribers w y)"
    and "\<forall>c. h \<in> set (subscribers w c) \<longrightarrow> c = y"
    and "typeid e = x"
  shows "h \<notin> fst ` set (delivered w (Notify D e w))"
proof -
  have "h \<notin> set (subscribers w x)"
    using assms(1,3) by blast
  then show ?thesis
    by (auto simp: delivered_Notify assms(4))
qed

theorem Notify_category_isolation_witness:
  "(0 :: nat) \<noteq> 1 \<and>
   (7 :: nat) \<in> set (subscribers (Attach True (0 :: nat) 5 (Attach True 1 7 (init :: (nat, nat, unit) world))) 1) \<and>
   (\<forall>c. (7 :: nat) \<in> set (subscribers (Attach True (0 :: nat) 5 (Attach True 1 7 (init :: (nat, nat, unit) world))) c) \<longleftrightarrow> c = 1) \<and>
   typeid (Event (0 :: nat) ()) = 0 \<and>
   delivered (Attach True 0 5 (Attach True 1 7 (init :: (nat, nat, unit) world)))
     (Notify True (Event 0 ()) (Attach True 0 5 (Attach True 1 7 init))) = [(5, Event 0 ())] \<and>
   (7 :: nat) \<notin> fst ` set (delivered (Attach True (0 :: nat) 5 (Attach True 1 7 (init :: (nat, nat, unit) world)))
     (Notify True (Event 0 ()) (Attach True 0 5 (Attach True 1 7 init))))"
  using Notify_category_isolation [of 0 1 7
      "Attach True 0 5 (Attach True 1 7 (init :: (nat, nat, unit) world))" "Event 0 ()" True]
  by (simp add: subscribers_Attach delivered_Notify subscribers_None init_def)

text \<open>
  C5. In a world that satisfies the registry invariant (every world the three operations
  produce from \<open>init\<close> does, by \<open>registry_ok_run\<close>), \<^verbatim>\<open>Detach\<close> with
  \<^verbatim>\<open>myObservers\<close> null, or of a handle that is not in the category's vector (the
  category may have no vector at all), leaves the registry and the calls as they were. All
  it does is print one message in a debug build: the null-pointer message in the first
  case, the could-not-detach message in the second.
\<close>

theorem Detach_anomalous_noop:
  assumes "registry_ok w"
    and "myObservers w = None \<or> h \<notin> set (subscribers w c)"
  shows "myObservers (Detach D c h w) = myObservers w \<and>
         calls (Detach D c h w) = calls w \<and>
         printed (Detach D c h w) =
           printed w @
             (if D then [if myObservers w = None then NullptrInDetach else CouldNotDetach]
              else [])"
proof -
  have absent: "h \<notin> set (subscribers w c)"
    using assms(2) by (auto simp: subscribers_None)
  have "entry (Detach D c h w) d = entry w d" for d
  proof (cases "d = c")
    case False
    then show ?thesis by (simp add: entry_Detach)
  next
    case True
    show ?thesis
    proof (cases "entry w c")
      case None
      then show ?thesis
        by (simp add: True entry_Detach detached_absent absent) (simp add: subscribers_def)
    next
      case (Some xs)
      then have xs: "xs \<noteq> []" using assms(1) by (simp add: registry_ok_iff)
      have sub: "subscribers w c = xs" using Some by (simp add: subscribers_def)
      have "myObservers w \<noteq> None" using Some by (cases "myObservers w") (simp_all add: entry_def)
      then show ?thesis
        using absent xs by (simp add: True entry_Detach detached_absent sub Some)
    qed
  qed
  moreover from this
  have "myObservers (Detach D c h w) = None \<longleftrightarrow> myObservers w = None"
    using assms(1) by (auto simp: Detach_None_iff registry_ok_iff entry_def)
  ultimately have "myObservers (Detach D c h w) = myObservers w"
    by (intro registry_eqI) simp_all
  then show ?thesis
    using absent by (simp add: calls_Detach printed_Detach)
qed

theorem Detach_anomalous_noop_witness:
  "registry_ok (init :: (nat, nat, unit) world) \<and>
   myObservers (init :: (nat, nat, unit) world) = None \<and>
   myObservers (Detach True (0 :: nat) (1 :: nat) (init :: (nat, nat, unit) world)) = None \<and>
   printed (Detach True (0 :: nat) (1 :: nat) (init :: (nat, nat, unit) world)) = [NullptrInDetach] \<and>
   registry_ok (run True [Subscribe (0 :: nat) (1 :: nat)] (init :: (nat, nat, unit) world)) \<and>
   (2 :: nat) \<notin> set (subscribers (run True [Subscribe (0 :: nat) 1] (init :: (nat, nat, unit) world)) 0) \<and>
   (1 :: nat) \<notin> set (subscribers (run True [Subscribe (0 :: nat) 1] (init :: (nat, nat, unit) world)) 3) \<and>
   myObservers (Detach True 0 2 (run True [Subscribe 0 1] (init :: (nat, nat, unit) world))) =
     myObservers (run True [Subscribe 0 1] (init :: (nat, nat, unit) world)) \<and>
   printed (Detach True 0 2 (run True [Subscribe 0 1] (init :: (nat, nat, unit) world))) = [CouldNotDetach] \<and>
   myObservers (Detach True 3 1 (run True [Subscribe 0 1] (init :: (nat, nat, unit) world))) =
     myObservers (run True [Subscribe 0 1] (init :: (nat, nat, unit) world)) \<and>
   printed (Detach True 3 1 (run True [Subscribe 0 1] (init :: (nat, nat, unit) world))) = [CouldNotDetach]"
  using Detach_anomalous_noop [of "init :: (nat, nat, unit) world" 1 0 True]
    Detach_anomalous_noop [of "run True [Subscribe 0 1] (init :: (nat, nat, unit) world)" 2 0 True]
    Detach_anomalous_noop [of "run True [Subscribe 0 1] (init :: (nat, nat, unit) world)" 1 3 True]
  by (simp add: registry_ok_run registry_ok_init)
     (simp add: run_def subscribers_Attach printed_Attach Attach_Some subscribers_None init_def)

text \<open>
  C6, amended. \<^verbatim>\<open>Notify\<close> of an event whose category has no subscriber calls no
  \<^verbatim>\<open>OnNotify\<close> and leaves the registry as it was, whether \<^verbatim>\<open>myObservers\<close> is null
  or not. It prints nothing, with one exception: in a debug build, when
  \<^verbatim>\<open>myObservers\<close> is null, it prints the null-pointer message.
\<close>

theorem Notify_no_subscribers_noop:
  assumes "subscribers w (typeid e) = []"
  shows "Notify D e w = debug_printf (D \<and> myObservers w = None) NullptrInNotify w \<and>
         myObservers (Notify D e w) = myObservers w \<and>
         calls (Notify D e w) = calls w \<and>
         delivered w (Notify D e w) = [] \<and>
         printed (Notify D e w) =
           printed w @ (if D \<and> myObservers w = None then [NullptrInNotify] else [])"
proof -
  have "Notify D e w = debug_printf (D \<and> myObservers w = None) NullptrInNotify w"
    using assms
    by (auto simp: Notify_def subscribers_def entry_def debug_printf_def split: option.splits)
  moreover have "delivered w (Notify D e w) = []"
    using assms by (simp add: delivered_Notify)
  moreover have "calls (Notify D e w) = calls w"
    using assms by (simp add: calls_Notify)
  moreover have "myObservers (Notify D e w) = myObservers w"
    by (rule myObservers_Notify)
  moreover have "printed (Notify D e w) =
      printed w @ (if D \<and> myObservers w = None then [NullptrInNotify] else [])"
    by (rule printed_Notify)
  ultimately show ?thesis
    by (intro conjI)
qed

theorem Notify_no_subscribers_noop_witness:
  "subscribers (init :: (nat, nat, unit) world) (typeid (Event (0 :: nat) ())) = [] \<and>
   Notify False (Event (0 :: nat) ()) (init :: (nat, nat, unit) world) = init \<and>
   subscribers (Attach True (1 :: nat) (5 :: nat) (init :: (nat, nat, unit) world))
     (typeid (Event (0 :: nat) ())) = [] \<and>
   myObservers (Notify True (Event 0 ()) (Attach True 1 5 (init :: (nat, nat, unit) world))) =
     myObservers (Attach True 1 5 (init :: (nat, nat, unit) world)) \<and>
   calls (Notify True (Event 0 ()) (Attach True 1 5 (init :: (nat, nat, unit) world))) = [] \<and>
   printed (Notify True (Event 0 ()) (Attach True 1 5 (init :: (nat, nat, unit) world))) = []"
  using Notify_no_subscribers_noop [of "init :: (nat, nat, unit) world" "Event 0 ()" False]
    Notify_no_subscribers_noop
      [of "Attach True 1 5 (init :: (nat, nat, unit) world)" "Event 0 ()" True]
  by (simp add: subscribers_Attach calls_Attach printed_Attach Attach_Some debug_printf_def)
     (simp add: calls_Attach printed_Attach subscribers_None init_def)

text \<open>
  The claim C6 as written fails in a debug build: with \<^verbatim>\<open>myObservers\<close> null, no category
  has a subscriber, and \<^verbatim>\<open>Notify\<close> prints.
\<close>

theorem Notify_uninitialized_debug_prints:
  "subscribers (init :: (nat, nat, unit) world) (typeid (Event (0 :: nat) ())) = [] \<and>
   printed (init :: (nat, nat, unit) world) = [] \<and>
   printed (Notify True (Event (0 :: nat) ()) (init :: (nat, nat, unit) world)) = [NullptrInNotify] \<and>
   Notify True (Event (0 :: nat) ()) (init :: (nat, nat, unit) world) \<noteq> init"
  by (simp add: init_def subscribers_def entry_def Notify_def debug_printf_def)

text \<open>
  C7. \<^verbatim>\<open>Notify\<close> leaves \<^verbatim>\<open>myObservers\<close> as it was, for every world and every
  event, and so does any sequence of \<^verbatim>\<open>Notify\<close> calls: the registry changes only in
  \<^verbatim>\<open>Attach\<close> and \<^verbatim>\<open>Detach\<close>. (\<open>OnNotify\<close> records the call and does not
  call back into the subject.)
\<close>

theorem Notify_registry_unchanged:
  "myObservers (Notify D e w) = myObservers w \<and>
   myObservers (run D (map Publish es) w) = myObservers w"
proof
  show "myObservers (Notify D e w) = myObservers w"
    by (rule myObservers_Notify)
  show "myObservers (run D (map Publish es) w) = myObservers w"
    unfolding run_def by (induction es arbitrary: w) (simp_all add: myObservers_Notify)
qed

text \<open>
  C8. After any sequence of \<^verbatim>\<open>Attach\<close>, \<^verbatim>\<open>Detach\<close> and \<^verbatim>\<open>Notify\<close> calls
  from \<open>init\<close>, \<^verbatim>\<open>myObservers\<close> is null or points to a map with at least one key,
  in which every key has a non-empty vector that repeats no handle.
\<close>

theorem registry_invariant_reachable:
  "case myObservers (run D cs init) of
     None \<Rightarrow> True
   | Some m \<Rightarrow>
       Mapping.keys m \<noteq> {} \<and>
       (\<forall>c \<in> Mapping.keys m.
          \<exists>xs. Mapping.lookup m c = Some xs \<and> xs \<noteq> [] \<and> distinct xs)"
proof -
  have "registry_ok (run D cs init)"
    by (simp add: registry_ok_run registry_ok_init)
  then show ?thesis
    by (auto simp: registry_ok_def Mapping.is_empty_def Mapping.lookup_default_def
          keys_dom_lookup split: option.splits)
qed


theorem registry_invariant_reachable_witness:
  "entry (run True [Subscribe (0 :: nat) (1 :: nat), Subscribe 1 2, Subscribe 1 3,
       Unsubscribe 0 1, Publish (Event 1 ())] (init :: (nat, nat, unit) world)) 0 = None \<and>
   entry (run True [Subscribe (0 :: nat) (1 :: nat), Subscribe 1 2, Subscribe 1 3,
       Unsubscribe 0 1, Publish (Event 1 ())] (init :: (nat, nat, unit) world)) 1 = Some [2, 3] \<and>
   (case myObservers (run True [Subscribe (0 :: nat) (1 :: nat), Subscribe 1 2, Subscribe 1 3,
       Unsubscribe 0 1, Publish (Event 1 ())] (init :: (nat, nat, unit) world)) of
     None \<Rightarrow> True
   | Some m \<Rightarrow>
       Mapping.keys m \<noteq> {} \<and>
       (\<forall>c \<in> Mapping.keys m.
          \<exists>xs. Mapping.lookup m c = Some xs \<and> xs \<noteq> [] \<and> distinct xs))"
  using registry_invariant_reachable [of True "[Subscribe (0 :: nat) (1 :: nat), Subscribe 1 2,
      Subscribe 1 3, Unsubscribe 0 1, Publish (Event 1 ())]"]
  by (simp add: run_def entry_Notify entry_Detach entry_Attach subscribers_Attach Attach_Some
        detached_distinct subscribers_None init_def)

text \<open>
  C9. In a world that satisfies the registry invariant, \<^verbatim>\<open>Detach\<close> of a handle that is
  in the category's vector removes that handle and nothing else: the vector is one shorter
  and the other handles keep their order. A \<^verbatim>\<open>Notify\<close> of that category afterwards
  calls \<^verbatim>\<open>OnNotify\<close> on the remaining handles in that order.
\<close>

theorem Detach_removes_one_preserves_order:
  assumes "registry_ok w" and "h \<in> set (subscribers w c)" and "typeid e = c"
  shows "subscribers (Detach D c h w) c = filter (\<lambda>x. x \<noteq> h) (subscribers w c) \<and>
         subscribers (Detach D c h w) c = remove1 h (subscribers w c) \<and>
         Suc (length (subscribers (Detach D c h w) c)) = length (subscribers w c) \<and>
         delivered (Detach D c h w) (Notify D e (Detach D c h w)) =
           map (\<lambda>observer. (observer, e)) (filter (\<lambda>x. x \<noteq> h) (subscribers w c))"
proof -
  have d: "distinct (subscribers w c)"
    using assms(1) by (rule registry_ok_subscribers)
  then have eq: "subscribers (Detach D c h w) c = filter (\<lambda>x. x \<noteq> h) (subscribers w c)"
    using assms(2) by (simp add: subscribers_Detach detached_distinct)
  moreover have "filter (\<lambda>x. x \<noteq> h) (subscribers w c) = remove1 h (subscribers w c)"
    using d by (simp add: distinct_remove1_removeAll removeAll_filter_not_eq) metis
  moreover have "Suc (length (filter (\<lambda>x. x \<noteq> h) (subscribers w c))) = length (subscribers w c)"
    using d assms(2) by (rule length_filter_distinct)
  ultimately show ?thesis
    by (simp add: delivered_Notify assms(3))
qed

theorem Detach_removes_one_preserves_order_witness:
  "registry_ok (Attach True (0 :: nat) (3 :: nat) (Attach True 0 2 (Attach True 0 1
     (init :: (nat, nat, unit) world)))) \<and>
   (2 :: nat) \<in> set (subscribers (Attach True (0 :: nat) 3 (Attach True 0 2 (Attach True 0 1
     (init :: (nat, nat, unit) world)))) 0) \<and>
   typeid (Event (0 :: nat) ()) = 0 \<and>
   subscribers (Detach True (0 :: nat) (2 :: nat) (Attach True 0 3 (Attach True 0 2 (Attach True 0 1
     (init :: (nat, nat, unit) world))))) 0 = [1, 3] \<and>
   delivered (Detach True (0 :: nat) (2 :: nat) (Attach True 0 3 (Attach True 0 2 (Attach True 0 1
       (init :: (nat, nat, unit) world)))))
     (Notify True (Event 0 ()) (Detach True 0 2 (Attach True 0 3 (Attach True 0 2 (Attach True 0 1
       init))))) = [(1, Event 0 ()), (3, Event 0 ())]"
  using Detach_removes_one_preserves_order [of "Attach True 0 3 (Attach True 0 2 (Attach True 0 1
      (init :: (nat, nat, unit) world)))" 2 0 "Event 0 ()" True]
  by (simp add: registry_ok_Attach registry_ok_init subscribers_Attach)
     (simp add: subscribers_None init_def)

text \<open>
  C10. For distinct categories \<open>c\<close> and \<open>d\<close>, in every world, \<^verbatim>\<open>Attach\<close> and
  \<^verbatim>\<open>Detach\<close> on \<open>c\<close> leave the vector of \<open>d\<close> as it was (whether it exists, and
  its contents).
\<close>

theorem Attach_Detach_other_category_frame:
  assumes "c \<noteq> d"
  shows "entry (Attach D c h w) d = entry w d \<and>
         entry (Detach D c h w) d = entry w d \<and>
         subscribers (Attach D c h w) d = subscribers w d \<and>
         subscribers (Detach D c h w) d = subscribers w d"
  using assms by (simp add: entry_Attach entry_Detach subscribers_Attach subscribers_Detach)

theorem Attach_Detach_other_category_frame_witness:
  "(0 :: nat) \<noteq> 1 \<and>
   subscribers (Attach True (1 :: nat) (7 :: nat) (Attach True 0 7 (init :: (nat, nat, unit) world))) 1 = [7] \<and>
   subscribers (Attach True (0 :: nat) (8 :: nat)
     (Attach True 1 7 (Attach True 0 7 (init :: (nat, nat, unit) world)))) 1 = [7] \<and>
   subscribers (Detach True (0 :: nat) (7 :: nat)
     (Attach True 1 7 (Attach True 0 7 (init :: (nat, nat, unit) world)))) 1 = [7] \<and>
   entry (Detach True (0 :: nat) (7 :: nat)
     (Attach True 1 7 (Attach True 0 7 (init :: (nat, nat, unit) world)))) 0 = None"
  using Attach_Detach_other_category_frame [of 0 1 True 8
      "Attach True 1 7 (Attach True 0 7 (init :: (nat, nat, unit) world))"]
    Attach_Detach_other_category_frame [of 0 1 True 7
      "Attach True 1 7 (Attach True 0 7 (init :: (nat, nat, unit) world))"]
  by (simp add: subscribers_Attach entry_Detach Attach_Some)
     (simp add: subscribers_None init_def detached_def std_remove_def erase_def)

end
